theory Spec2Isabelle
  imports Complex_Main "HOL-Library.Word"
begin

section \<open>The C type \<open>float\<close>: IEEE 754 binary32, round to nearest, ties to even\<close>

text \<open>
  Every pixel channel, the luminance and the saturation factor of
  \<^verbatim>\<open>src/iop/linearsaturation.c\<close> have the C type \<^verbatim>\<open>float\<close>. A value is a NaN, a
  signed infinity, or a sign bit with a magnitude; the magnitude of a value stored in
  memory is one of the numbers of the format (\<open>is_float32\<close> below). All NaNs are
  identified, so equality of two non-NaN values of this type is equality of their bits.
\<close>

datatype float = Finite bool rat | Infinity bool | NaN

text \<open>Number of binary digits of a positive integer.\<close>

function bitlen :: "int \<Rightarrow> int" where
  "bitlen n = (if n \<le> 0 then 0 else 1 + bitlen (n div 2))"
  by pat_completeness auto
termination
  by (relation "measure nat") auto

declare bitlen.simps [simp del]

definition pow2 :: "int \<Rightarrow> rat" where
  "pow2 e = (if 0 \<le> e then 2 ^ nat e else 1 / 2 ^ nat (- e))"

text \<open>\<open>ilog2 q\<close> is the integer \<open>e\<close> with \<open>2^e \<le> q < 2^(e+1)\<close>, for \<open>q > 0\<close>.\<close>

definition ilog2 :: "rat \<Rightarrow> int" where
  "ilog2 q = (if 1 \<le> q then bitlen \<lfloor>q\<rfloor> - 1 else - bitlen (\<lceil>1 / q\<rceil> - 1))"

definition round_even :: "rat \<Rightarrow> int" where
  "round_even x = (let f = \<lfloor>x\<rfloor>; r = x - of_int f in
     if r < 1 / 2 then f else if 1 / 2 < r then f + 1 else if even f then f else f + 1)"

text \<open>
  Rounding of an exact magnitude \<open>q \<ge> 0\<close> with sign \<open>s\<close>: 24 significant bits, least
  exponent \<open>-126\<close> (below it the spacing stays \<open>2^-149\<close>: subnormal numbers), overflow
  to infinity from \<open>2^128\<close> on.
\<close>

definition round32 :: "bool \<Rightarrow> rat \<Rightarrow> float" where
  "round32 s q = (if q = 0 then Finite s 0 else
     let e = max (ilog2 q) (- 126); ulp = pow2 (e - 23);
         r = of_int (round_even (q / ulp)) * ulp
     in if pow2 128 \<le> r then Infinity s else Finite s r)"

definition sval :: "bool \<Rightarrow> rat \<Rightarrow> rat" where
  "sval s m = (if s then - m else m)"

text \<open>The number a finite value stands for.\<close>

fun fval :: "float \<Rightarrow> rat" where
  "fval (Finite s m) = sval s m"
| "fval (Infinity s) = 0"
| "fval NaN = 0"

fun is_float32 :: "float \<Rightarrow> bool" where
  "is_float32 (Finite s m) = (0 \<le> m \<and> round32 s m = Finite s m)"
| "is_float32 (Infinity s) = True"
| "is_float32 NaN = True"

fun is_finite :: "float \<Rightarrow> bool" where
  "is_finite (Finite s m) = True"
| "is_finite (Infinity s) = False"
| "is_finite NaN = False"

fun is_nan :: "float \<Rightarrow> bool" where
  "is_nan NaN = True"
| "is_nan (Finite s m) = False"
| "is_nan (Infinity s) = False"

fun fneg :: "float \<Rightarrow> float" where
  "fneg (Finite s m) = Finite (\<not> s) m"
| "fneg (Infinity s) = Infinity (\<not> s)"
| "fneg NaN = NaN"

fun fadd :: "float \<Rightarrow> float \<Rightarrow> float" where
  "fadd NaN b = NaN"
| "fadd (Finite s a) NaN = NaN"
| "fadd (Infinity s) NaN = NaN"
| "fadd (Infinity s) (Infinity t) = (if s = t then Infinity s else NaN)"
| "fadd (Infinity s) (Finite t b) = Infinity s"
| "fadd (Finite s a) (Infinity t) = Infinity t"
| "fadd (Finite s a) (Finite t b) =
     (let x = sval s a + sval t b in
      if x = 0 then Finite (s \<and> t) 0 else round32 (x < 0) \<bar>x\<bar>)"

fun fmul :: "float \<Rightarrow> float \<Rightarrow> float" where
  "fmul NaN b = NaN"
| "fmul (Finite s a) NaN = NaN"
| "fmul (Infinity s) NaN = NaN"
| "fmul (Infinity s) (Infinity t) = Infinity (s \<noteq> t)"
| "fmul (Infinity s) (Finite t b) = (if b = 0 then NaN else Infinity (s \<noteq> t))"
| "fmul (Finite s a) (Infinity t) = (if a = 0 then NaN else Infinity (s \<noteq> t))"
| "fmul (Finite s a) (Finite t b) = round32 (s \<noteq> t) (a * b)"

fun fdiv :: "float \<Rightarrow> float \<Rightarrow> float" where
  "fdiv NaN b = NaN"
| "fdiv (Finite s a) NaN = NaN"
| "fdiv (Infinity s) NaN = NaN"
| "fdiv (Infinity s) (Infinity t) = NaN"
| "fdiv (Infinity s) (Finite t b) = Infinity (s \<noteq> t)"
| "fdiv (Finite s a) (Infinity t) = Finite (s \<noteq> t) 0"
| "fdiv (Finite s a) (Finite t b) =
     (if b = 0 then (if a = 0 then NaN else Infinity (s \<noteq> t))
      else round32 (s \<noteq> t) (a / b))"

text \<open>The comparisons \<^verbatim>\<open>==\<close> and \<^verbatim>\<open><\<close> of C: a NaN compares false, the two zeros are equal.\<close>

fun feq :: "float \<Rightarrow> float \<Rightarrow> bool" where
  "feq (Finite s a) (Finite t b) = (sval s a = sval t b)"
| "feq (Infinity s) (Infinity t) = (s = t)"
| "feq (Finite s a) (Infinity t) = False"
| "feq (Infinity s) (Finite t b) = False"
| "feq NaN b = False"
| "feq (Finite s a) NaN = False"
| "feq (Infinity s) NaN = False"

fun flt :: "float \<Rightarrow> float \<Rightarrow> bool" where
  "flt (Finite s a) (Finite t b) = (sval s a < sval t b)"
| "flt (Finite s a) (Infinity t) = (\<not> t)"
| "flt (Infinity s) (Finite t b) = s"
| "flt (Infinity s) (Infinity t) = (s \<and> \<not> t)"
| "flt NaN b = False"
| "flt (Finite s a) NaN = False"
| "flt (Infinity s) NaN = False"

instantiation float :: "{zero, one, plus, minus, uminus, times, inverse}"
begin

definition zero_float_def: "0 = Finite False 0"

definition one_float_def: "1 = Finite False 1"

definition plus_float_def: "a + b = fadd a b"

definition uminus_float_def: "- a = fneg a"

definition minus_float_def: "a - b = fadd a (fneg b)"

definition times_float_def: "a * b = fmul a b"

definition divide_float_def: "a div b = fdiv a b"

definition inverse_float_def: "inverse a = fdiv (Finite False 1) a"

instance ..

end

section \<open>The data of the module\<close>

text \<open>
  \<^verbatim>\<open>dt_iop_linearsaturation_params_t\<close>: the factor and the selector of the norm. The type
  of the selector, \<^verbatim>\<open>dt_iop_rgb_norms_t\<close>, is declared in \<^verbatim>\<open>common/rgb_norms.h\<close>;
  \<open>process\<close> only hands it on, so it stays a type parameter.
\<close>

record ('a, 'm) dt_iop_linearsaturation_params_t =
  saturation_factor :: 'a
  luma_method :: 'm

text \<open>
  \<^verbatim>\<open>dt_iop_roi_t\<close> is declared in \<^verbatim>\<open>develop/imageop.h\<close>; \<open>process\<close> reads its fields
  \<^verbatim>\<open>width\<close> and \<^verbatim>\<open>height\<close>, both \<^verbatim>\<open>int\<close> (32 bits, two's complement).
\<close>

record dt_iop_roi_t =
  width :: "32 word"
  height :: "32 word"

text \<open>
  Modelled from the spec: the norm modes of \<^verbatim>\<open>dt_iop_rgb_norms_t\<close>, an enumeration of
  \<^verbatim>\<open>common/rgb_norms.h\<close> that is not among the sources: "an enumerated selector over
  {Luminance-Y, Average, Vector-Norm, Power-Norm, other profile-aware variants}". The
  source names one of its constants, \<^verbatim>\<open>DT_RGB_NORM_LUMINANCE\<close>, the default.
\<close>

datatype dt_iop_rgb_norms_t =
  DT_RGB_NORM_LUMINANCE | DT_RGB_NORM_AVERAGE | DT_RGB_NORM_NORM | DT_RGB_NORM_POWER

text \<open>
  The loop bound \<^verbatim>\<open>(size_t)width * height\<close>: both \<^verbatim>\<open>int\<close>s are converted to the 64-bit
  \<^verbatim>\<open>size_t\<close> (sign extension) and multiplied modulo \<open>2^64\<close>.
\<close>

definition npixels :: "dt_iop_roi_t \<Rightarrow> nat" where
  "npixels roi = unat ((scast (width roi) :: 64 word) * scast (height roi))"

section \<open>\<open>process\<close>\<close>

text \<open>
  The buffers \<^verbatim>\<open>ivoid\<close> and \<^verbatim>\<open>ovoid\<close> are arrays of \<^verbatim>\<open>float\<close>, four per pixel; they
  are two lists, the input read-only. An access beyond the end of a buffer is undefined
  behaviour in C: the model stops with \<open>OutOfBounds\<close>. The function has no other way to
  fail: it returns \<^verbatim>\<open>void\<close>.

  \<^verbatim>\<open>dt_rgb_norm\<close> (of \<^verbatim>\<open>common/rgb_norms.h\<close>, not among the sources) is the parameter
  \<open>N\<close>: it receives the pixel at \<^verbatim>\<open>in + 4 * k\<close> (its four channels), the selector
  and the work profile, and returns a \<^verbatim>\<open>float\<close>. The work profile is the pointer
  returned by \<^verbatim>\<open>dt_ioppr_get_pipe_work_profile_info(piece->pipe)\<close>, \<open>None\<close> for \<^verbatim>\<open>NULL\<close>;
  \<open>d\<close> is \<^verbatim>\<open>piece->data\<close>. The arithmetic is that of the channel type \<open>'a\<close>: of
  \<open>float\<close> for the program as compiled, of a ring for the exact formula.
\<close>

datatype fault = OutOfBounds

type_synonym ('a, 'm, 'p) rgb_norm = "'a list \<Rightarrow> 'm \<Rightarrow> 'p option \<Rightarrow> 'a"

text \<open>The pixel at \<^verbatim>\<open>buf + 4 * k\<close>: its four channels.\<close>

definition pixel_at :: "'a list \<Rightarrow> nat \<Rightarrow> 'a list" where
  "pixel_at buf k = take 4 (drop (4 * k) buf)"

text \<open>The body of the loop over \<open>k\<close>, for buffers that hold pixel \<open>k\<close>.\<close>

definition pixel_body ::
  "('a::{plus,minus,times}, 'm, 'p) rgb_norm \<Rightarrow> ('a, 'm) dt_iop_linearsaturation_params_t \<Rightarrow>
   'p option \<Rightarrow> 'a list \<Rightarrow> 'a list \<Rightarrow> nat \<Rightarrow> 'a list" where
  "pixel_body N d work_profile inb outb k =
     (let pixel_in_rgba = pixel_at inb k;
          luma = N pixel_in_rgba (luma_method d) work_profile;
          outb' = fold (\<lambda>c ob. ob[4 * k + c :=
                          luma + saturation_factor d * (pixel_in_rgba ! c - luma)])
                       [0 ..< 3] outb
      in outb'[4 * k + 3 := pixel_in_rgba ! 3])"

definition process_pixel ::
  "('a::{plus,minus,times}, 'm, 'p) rgb_norm \<Rightarrow> ('a, 'm) dt_iop_linearsaturation_params_t \<Rightarrow>
   'p option \<Rightarrow> 'a list \<Rightarrow> 'a list \<Rightarrow> nat \<Rightarrow> fault + 'a list" where
  "process_pixel N d work_profile inb outb k =
     (if 4 * k + 3 < length inb \<and> 4 * k + 3 < length outb
      then Inr (pixel_body N d work_profile inb outb k)
      else Inl OutOfBounds)"

function process_loop ::
  "('a::{plus,minus,times}, 'm, 'p) rgb_norm \<Rightarrow> ('a, 'm) dt_iop_linearsaturation_params_t \<Rightarrow>
   'p option \<Rightarrow> 'a list \<Rightarrow> nat \<Rightarrow> nat \<Rightarrow> 'a list \<Rightarrow> fault + 'a list" where
  "process_loop N d work_profile inb n k outb =
     (if k < n
      then (case process_pixel N d work_profile inb outb k of
              Inl e \<Rightarrow> Inl e
            | Inr outb' \<Rightarrow> process_loop N d work_profile inb n (Suc k) outb')
      else Inr outb)"
  by pat_completeness auto
termination
  by (relation "measure (\<lambda>(N, d, work_profile, inb, n, k, outb). n - k)") auto

declare process_loop.simps [simp del]

definition process ::
  "('a::{plus,minus,times}, 'm, 'p) rgb_norm \<Rightarrow> ('a, 'm) dt_iop_linearsaturation_params_t \<Rightarrow>
   'p option \<Rightarrow> 'a list \<Rightarrow> 'a list \<Rightarrow> dt_iop_roi_t \<Rightarrow> dt_iop_roi_t \<Rightarrow> fault + 'a list" where
  "process N d work_profile ivoid ovoid roi_in roi_out =
     process_loop N d work_profile ivoid (npixels roi_in) 0 ovoid"

text \<open>
  What the loop leaves at index \<open>i\<close> of the output buffer, when \<open>i\<close> lies in one of
  the pixels it visits.
\<close>

definition out_value ::
  "('a::{plus,minus,times}, 'm, 'p) rgb_norm \<Rightarrow> ('a, 'm) dt_iop_linearsaturation_params_t \<Rightarrow>
   'p option \<Rightarrow> 'a list \<Rightarrow> nat \<Rightarrow> 'a" where
  "out_value N d work_profile inb i =
     (let px = pixel_at inb (i div 4); luma = N px (luma_method d) work_profile
      in if i mod 4 = 3 then px ! 3
         else luma + saturation_factor d * (px ! (i mod 4) - luma))"

section \<open>Norms\<close>

text \<open>
  Modelled from the spec: \<^verbatim>\<open>dt_rgb_norm\<close> in Average mode. The function is defined in
  \<^verbatim>\<open>common/rgb_norms.h\<close>, which is not among the sources; the spec gives
  "Average: (R+G+B)/3". The arithmetic is that of \<^verbatim>\<open>float\<close>, summed from the left.
\<close>

definition average_norm :: "(float, 'm, 'p) rgb_norm" where
  "average_norm px m work_profile = (px ! 0 + px ! 1 + px ! 2) / Finite False 3"

text \<open>
  \<^verbatim>\<open>luma_power_norm\<close> of \<^verbatim>\<open>linearsaturation.c\<close> (lines 205 to 212), the Power-Norm code
  of the source file: the squares first, then the quotient of the sum of the cubes by the
  sum of the squares. It divides without a test of the divisor.
\<close>

definition luma_power_norm :: "float list \<Rightarrow> float" where
  "luma_power_norm rgb_in =
     (let R = rgb_in ! 0 * rgb_in ! 0; G = rgb_in ! 1 * rgb_in ! 1; B = rgb_in ! 2 * rgb_in ! 2
      in (rgb_in ! 0 * R + rgb_in ! 1 * G + rgb_in ! 2 * B) / (R + G + B))"

text \<open>
  \<open>process\<close> calls \<^verbatim>\<open>dt_rgb_norm\<close>, which is not among the sources; \<open>luma_power_norm\<close>
  stands in a block of the source file that is commented out. For Power-Norm mode the
  norm handed to \<open>process\<close> is this formula, the one the source shows: it looks at the
  pixel only, not at the selector or the work profile.
\<close>

definition power_norm_mode :: "(float, 'm, 'p) rgb_norm" where
  "power_norm_mode px m work_profile = luma_power_norm px"

text \<open>
  A norm helper that returns the float \<open>v\<close> for every pixel, selector and profile. It
  stands for a call of \<^verbatim>\<open>dt_rgb_norm\<close> of which only the returned value matters.
\<close>

definition norm_of_value :: "'a \<Rightarrow> ('a, 'm, 'p) rgb_norm" where
  "norm_of_value v px m work_profile = v"

section \<open>Facts about the arithmetic of \<open>float\<close>\<close>

text \<open>
  \<open>ilog2\<close> is the binary exponent, and rounding gives a number of the format: every
  result of the four operations is one.
\<close>

lemma bitlen_nonneg: "0 \<le> bitlen n"
proof (induction n rule: bitlen.induct)
  case (1 n)
  then show ?case by (subst bitlen.simps) simp
qed

lemma bitlen_pos: "0 < n \<Longrightarrow> 1 \<le> bitlen n"
  using bitlen_nonneg [of "n div 2"] by (subst bitlen.simps) simp

lemma bitlen_bounds:
  "0 < n \<Longrightarrow> 2 ^ nat (bitlen n - 1) \<le> n \<and> n < 2 ^ nat (bitlen n)"
proof (induction n rule: bitlen.induct)
  case (1 n)
  show ?case
  proof (cases "n = 1")
    case True
    then show ?thesis by (simp add: bitlen.simps [of 1] bitlen.simps [of 0])
  next
    case False
    with "1.prems" have m: "0 < n div 2" by simp
    let ?b = "bitlen (n div 2)"
    have b1: "1 \<le> ?b" using bitlen_pos [OF m] .
    have ih: "2 ^ nat (?b - 1) \<le> n div 2" "n div 2 < 2 ^ nat ?b"
      using "1.IH" m "1.prems" by auto
    have bn: "bitlen n = 1 + ?b" using "1.prems" by (subst bitlen.simps) simp
    have e1: "nat (1 + ?b - 1) = Suc (nat (?b - 1))" using b1 by simp
    have e2: "nat (1 + ?b) = Suc (nat ?b)" using b1 by simp
    have e3: "nat ?b = Suc (nat (?b - 1))" using b1 by simp
    have "2 * 2 ^ nat (?b - 1) \<le> n" using ih(1) by simp
    then have "2 ^ nat ?b \<le> n" by (simp add: e3)
    moreover have "n < 2 * 2 ^ nat ?b" using ih(2) by simp
    ultimately show ?thesis by (simp add: bn e2)
  qed
qed

lemma pow2_powi: "pow2 e = 2 powi e"
  by (simp add: pow2_def power_int_def field_simps)

lemma pow2_pos [simp]: "0 < pow2 e"
  by (simp add: pow2_powi)

lemma pow2_add: "pow2 (a + b) = pow2 a * pow2 b"
  by (simp add: pow2_powi power_int_add)

lemma pow2_minus: "pow2 (- e) = 1 / pow2 e"
  by (simp add: pow2_powi power_int_minus divide_inverse)

lemma pow2_mono: "a \<le> b \<Longrightarrow> pow2 a \<le> pow2 b"
  by (simp add: pow2_powi power_int_increasing)

lemma pow2_strict_mono: "a < b \<Longrightarrow> pow2 a < pow2 b"
  by (simp add: pow2_powi power_int_strict_increasing)

lemma pow2_less_cancel: "pow2 a < pow2 b \<Longrightarrow> a < b"
  using pow2_mono [of b a] by (cases "a < b") auto

lemma pow2_nat: "0 \<le> e \<Longrightarrow> pow2 e = of_int (2 ^ nat e)"
  by (simp add: pow2_def)

lemma ilog2_bounds:
  assumes "0 < q"
  shows "pow2 (ilog2 q) \<le> q \<and> q < pow2 (ilog2 q + 1)"
proof (cases "1 \<le> q")
  case True
  let ?n = "\<lfloor>q\<rfloor>"
  have n: "0 < ?n" using True by simp
  let ?b = "bitlen ?n"
  have b1: "1 \<le> ?b" using bitlen_pos [OF n] .
  have bb: "2 ^ nat (?b - 1) \<le> ?n" "?n < 2 ^ nat ?b" using bitlen_bounds [OF n] by auto
  have il: "ilog2 q = ?b - 1" using True by (simp add: ilog2_def)
  have "pow2 (?b - 1) = of_int (2 ^ nat (?b - 1))" using b1 by (simp add: pow2_nat)
  also have "\<dots> \<le> of_int ?n" using bb(1) by (simp only: of_int_le_iff)
  also have "\<dots> \<le> q" by simp
  finally have lo: "pow2 (?b - 1) \<le> q" .
  have "?n + 1 \<le> 2 ^ nat ?b" using bb(2) by simp
  then have "(of_int (?n + 1) :: rat) \<le> of_int (2 ^ nat ?b)" by (simp only: of_int_le_iff)
  moreover have "q < of_int (?n + 1)" by linarith
  ultimately have "q < of_int (2 ^ nat ?b)" by simp
  then have hi: "q < pow2 ?b" using b1 by (simp add: pow2_nat)
  show ?thesis using lo hi by (simp add: il)
next
  case False
  then have q1: "q < 1" by simp
  let ?c = "\<lceil>1 / q\<rceil>"
  have inv: "1 < 1 / q" using assms q1 by simp
  then have c2: "2 \<le> ?c" by linarith
  let ?n = "?c - 1"
  have n: "0 < ?n" using c2 by simp
  let ?b = "bitlen ?n"
  have b1: "1 \<le> ?b" using bitlen_pos [OF n] .
  have bb: "2 ^ nat (?b - 1) \<le> ?n" "?n < 2 ^ nat ?b" using bitlen_bounds [OF n] by auto
  have il: "ilog2 q = - ?b" using False by (simp add: ilog2_def)
  have "1 / q \<le> of_int ?c" by simp
  also have "(of_int ?c :: rat) \<le> of_int (2 ^ nat ?b)"
  proof -
    have "?c \<le> 2 ^ nat ?b" using bb(2) by simp
    then show ?thesis by (simp only: of_int_le_iff)
  qed
  also have "\<dots> = pow2 ?b" using b1 by (simp add: pow2_nat)
  finally have "1 / q \<le> pow2 ?b" .
  then have "1 \<le> pow2 ?b * q" using assms by (simp add: field_simps)
  then have lo: "pow2 (- ?b) \<le> q"
    by (simp add: pow2_minus pos_divide_le_eq mult.commute)
  have "(of_int (2 ^ nat (?b - 1)) :: rat) \<le> of_int ?n" using bb(1) by (simp only: of_int_le_iff)
  moreover have "of_int ?n < 1 / q" by linarith
  ultimately have "pow2 (?b - 1) < 1 / q" using b1 by (simp add: pow2_nat)
  then have "pow2 (?b - 1) * q < 1" using assms by (simp add: field_simps)
  then have "q < 1 / pow2 (?b - 1)"
    by (simp add: pos_less_divide_eq mult.commute)
  then have hi: "q < pow2 (1 - ?b)"
    using pow2_minus [of "?b - 1"] by simp
  show ?thesis using lo hi by (simp add: il)
qed

lemma ilog2_unique:
  assumes "pow2 e \<le> r" "r < pow2 (e + 1)"
  shows "ilog2 r = e"
proof -
  have r: "0 < r" using assms(1) pow2_pos [of e] by linarith
  have "pow2 (ilog2 r) < pow2 (e + 1)" using ilog2_bounds [OF r] assms(2) by linarith
  then have "ilog2 r < e + 1" by (rule pow2_less_cancel)
  moreover have "pow2 e < pow2 (ilog2 r + 1)" using ilog2_bounds [OF r] assms(1) by linarith
  then have "e < ilog2 r + 1" by (rule pow2_less_cancel)
  ultimately show ?thesis by simp
qed


lemma round_even_cases: "round_even x = \<lfloor>x\<rfloor> \<or> round_even x = \<lfloor>x\<rfloor> + 1"
  by (simp add: round_even_def Let_def)

lemma round_even_of_int [simp]: "round_even (of_int m) = m"
  by (simp add: round_even_def Let_def)

lemma round_even_ge: "of_int a \<le> x \<Longrightarrow> a \<le> round_even x"
proof -
  assume "of_int a \<le> x"
  then have "a \<le> \<lfloor>x\<rfloor>" by (simp add: le_floor_iff)
  then show ?thesis using round_even_cases [of x] by auto
qed

lemma round_even_le: "x \<le> of_int b \<Longrightarrow> round_even x \<le> b"
proof (cases "x = of_int b")
  case True
  then show ?thesis by simp
next
  case False
  assume "x \<le> of_int b"
  with False have "x < of_int b" by simp
  then have "\<lfloor>x\<rfloor> < b" by (simp add: floor_less_iff)
  then show ?thesis using round_even_cases [of x] by auto
qed

lemma round32_zero [simp]: "round32 s 0 = Finite s 0"
  by (simp add: round32_def)

lemma round32_exact:
  assumes "0 < r" "max (ilog2 r) (- 126) = e" "r = of_int m * pow2 (e - 23)" "r < pow2 128"
  shows "round32 s r = Finite s r"
proof -
  have "pow2 (e - 23) \<noteq> 0" by (simp add: pow2_powi)
  then have "r / pow2 (e - 23) = of_int m" using assms(3) by simp
  then show ?thesis using assms by (simp add: round32_def Let_def)
qed

lemma round32_closed:
  assumes "0 \<le> q"
  shows "is_float32 (round32 s q)"
proof (cases "q = 0")
  case True
  then show ?thesis by simp
next
  case False
  then have q: "0 < q" using assms by simp
  define e where "e = max (ilog2 q) (- 126)"
  define u where "u = pow2 (e - 23)"
  define m where "m = round_even (q / u)"
  define r where "r = of_int m * u"
  have u: "0 < u" by (simp add: u_def)
  have rq: "round32 s q = (if pow2 128 \<le> r then Infinity s else Finite s r)"
    using False by (simp add: round32_def Let_def e_def u_def m_def r_def)
  have e126: "- 126 \<le> e" by (simp add: e_def)
  have m0: "0 \<le> m"
  proof -
    have "(of_int 0 :: rat) \<le> q / u" using q u by simp
    then show ?thesis unfolding m_def by (rule round_even_ge)
  qed
  have r0: "0 \<le> r" using m0 u by (simp add: r_def)
  show ?thesis
  proof (cases "pow2 128 \<le> r")
    case True
    then show ?thesis by (simp add: rq)
  next
    case nov: False
    have "round32 s r = Finite s r"
    proof (cases "m = 0")
      case True
      then show ?thesis by (simp add: r_def)
    next
      case False
      then have m1: "1 \<le> m" using m0 by simp
      have rpos: "0 < r" using m1 u by (simp add: r_def)
      have r128: "r < pow2 128" using nov by simp
      have "pow2 (e + 1) = pow2 ((e - 23) + 24)" by (rule arg_cong [where f = pow2]) simp
      then have up: "pow2 (e + 1) = u * pow2 24" by (simp only: pow2_add u_def)
      have "pow2 e = pow2 ((e - 23) + 23)" by (rule arg_cong [where f = pow2]) simp
      then have lo: "pow2 e = u * pow2 23" by (simp only: pow2_add u_def)
      have p24: "pow2 24 = of_int (2 ^ 24)" and p23: "pow2 23 = of_int (2 ^ 23)"
        by (simp_all add: pow2_def)
      have "q < pow2 (ilog2 q + 1)" using ilog2_bounds [OF q] by simp
      also have "\<dots> \<le> pow2 (e + 1)" by (rule pow2_mono) (simp add: e_def)
      finally have "q < u * pow2 24" by (simp add: up)
      then have "q / u < of_int (2 ^ 24)" using u by (simp add: pos_divide_less_eq p24 mult.commute)
      then have mle: "m \<le> 2 ^ 24" unfolding m_def by (intro round_even_le) simp
      show ?thesis
      proof (cases "m = 2 ^ 24")
        case True
        then have r: "r = pow2 (e + 1)" by (simp add: r_def up p24 mult.commute)
        have "pow2 (e + 1) \<le> r" "r < pow2 (e + 1 + 1)"
          using r pow2_strict_mono [of "e + 1" "e + 1 + 1"] by simp_all
        then have "ilog2 r = e + 1" by (rule ilog2_unique)
        then have mx: "max (ilog2 r) (- 126) = e + 1" using e126 by simp
        have "pow2 (e + 1) = pow2 (23 + (e + 1 - 23))"
          by (rule arg_cong [where f = pow2]) simp
        then have "pow2 (e + 1) = of_int (2 ^ 23) * pow2 (e + 1 - 23)"
          by (simp only: pow2_add p23)
        then have rr: "r = of_int (2 ^ 23) * pow2 (e + 1 - 23)" using r by (simp only:)
        show ?thesis by (rule round32_exact [OF rpos mx rr r128])
      next
        case False
        then have "m < 2 ^ 24" using mle by simp
        then have "(of_int m :: rat) < of_int (2 ^ 24)" by (simp only: of_int_less_iff)
        then have rlt: "r < pow2 (e + 1)" using u by (simp add: r_def up p24 mult.commute)
        have rle: "ilog2 r \<le> e"
        proof -
          have "pow2 (ilog2 r) < pow2 (e + 1)" using ilog2_bounds [OF rpos] rlt by linarith
          then have "ilog2 r < e + 1" by (rule pow2_less_cancel)
          then show ?thesis by simp
        qed
        have mx: "max (ilog2 r) (- 126) = e"
        proof (cases "e = - 126")
          case True
          then show ?thesis using rle by simp
        next
          case False
          then have eq: "e = ilog2 q" using e126 by (simp add: e_def max_def split: if_splits)
          have "pow2 e \<le> q" using ilog2_bounds [OF q] eq by simp
          then have "of_int (2 ^ 23) \<le> q / u"
            using u by (simp add: pos_le_divide_eq lo p23 mult.commute)
          then have "2 ^ 23 \<le> m" unfolding m_def by (rule round_even_ge)
          then have "(of_int (2 ^ 23) :: rat) \<le> of_int m" by (simp only: of_int_le_iff)
          then have "pow2 e \<le> r" using u by (simp add: r_def lo p23 mult.commute)
          then have "ilog2 r = e" using rlt by (rule ilog2_unique)
          then show ?thesis using e126 by simp
        qed
        have rr: "r = of_int m * pow2 (e - 23)" by (simp add: r_def u_def)
        show ?thesis by (rule round32_exact [OF rpos mx rr r128])
      qed
    qed
    then show ?thesis using r0 nov by (simp add: rq)
  qed
qed

lemma round_even_error: "\<bar>of_int (round_even x) - x\<bar> \<le> 1 / 2"
proof -
  let ?f = "\<lfloor>x\<rfloor>"
  have b: "of_int ?f \<le> x" "x < of_int ?f + 1" by linarith+
  consider "x - of_int ?f < 1 / 2" | "1 / 2 < x - of_int ?f" | "x - of_int ?f = 1 / 2"
    by linarith
  then show ?thesis
  proof cases
    case 1
    then have e: "round_even x = ?f" by (simp add: round_even_def Let_def)
    show ?thesis unfolding e using b 1 by linarith
  next
    case 2
    then have e: "round_even x = ?f + 1" by (simp add: round_even_def Let_def)
    show ?thesis unfolding e of_int_add of_int_1 using b 2 by linarith
  next
    case 3
    then have "round_even x = ?f \<or> round_even x = ?f + 1"
      by (simp add: round_even_def Let_def)
    then show ?thesis
    proof
      assume e: "round_even x = ?f"
      show ?thesis unfolding e using b 3 by linarith
    next
      assume e: "round_even x = ?f + 1"
      show ?thesis unfolding e of_int_add of_int_1 using b 3 by linarith
    qed
  qed
qed

text \<open>The rounded magnitude is within half a unit in the last place of the exact one.\<close>

lemma round32_error:
  assumes "0 < q" "round32 s q = Finite t r"
  shows "\<bar>r - q\<bar> \<le> pow2 (max (ilog2 q) (- 126) - 23) / 2"
proof -
  let ?u = "pow2 (max (ilog2 q) (- 126) - 23)"
  have u: "0 < ?u" by simp
  have nz: "?u \<noteq> 0" by (simp add: pow2_powi)
  have r: "r = of_int (round_even (q / ?u)) * ?u"
    using assms by (simp add: round32_def Let_def split: if_splits)
  have "\<bar>of_int (round_even (q / ?u)) - q / ?u\<bar> * ?u \<le> 1 / 2 * ?u"
    by (rule mult_right_mono [OF round_even_error less_imp_le [OF u]])
  moreover have "\<bar>of_int (round_even (q / ?u)) - q / ?u\<bar> * ?u =
                 \<bar>(of_int (round_even (q / ?u)) - q / ?u) * ?u\<bar>"
    by (simp only: abs_mult abs_of_pos [OF u])
  moreover have "(of_int (round_even (q / ?u)) - q / ?u) * ?u = r - q"
    using nz by (simp add: r left_diff_distrib)
  ultimately show ?thesis by simp
qed

lemma fadd_closed: "is_float32 (fadd a b)"
  by (cases a; cases b) (simp_all add: Let_def round32_closed)

lemma fmul_closed: "is_float32 a \<Longrightarrow> is_float32 b \<Longrightarrow> is_float32 (fmul a b)"
  by (cases a; cases b) (simp_all add: round32_closed)

lemma fdiv_closed: "is_float32 a \<Longrightarrow> is_float32 b \<Longrightarrow> is_float32 (fdiv a b)"
  by (cases a; cases b) (simp_all add: round32_closed)


text \<open>Known values of the format: \<open>1/3\<close> and \<open>1/10\<close> rounded, a tie that goes to the even
  neighbour, the largest finite number, overflow and underflow.\<close>

lemma round32_third: "Finite False 1 / Finite False 3 = Finite False (11184811 / 33554432)"
  by code_simp

lemma round32_tenth: "Finite False 1 / Finite False 10 = Finite False (13421773 / 134217728)"
  by code_simp

lemma fadd_tie_even:
  "Finite False 1 + Finite False (1 / 2 ^ 24) = Finite False 1 \<and>
   Finite False 1 + Finite False (3 / 2 ^ 24) = Finite False (1 + 1 / 2 ^ 22)"
  by code_simp

lemma flt_max_overflow:
  "is_float32 (Finite False (2 ^ 128 - 2 ^ 104)) \<and>
   Finite False (2 ^ 128 - 2 ^ 104) + Finite False (2 ^ 128 - 2 ^ 104) = Infinity False \<and>
   Finite False (2 ^ 128 - 2 ^ 104) + Finite False (2 ^ 103) = Infinity False \<and>
   Finite False (2 ^ 128 - 2 ^ 104) + Finite False (2 ^ 102) = Finite False (2 ^ 128 - 2 ^ 104)"
  by code_simp

lemma subnormal_underflow:
  "is_float32 (Finite False (1 / 2 ^ 149)) \<and>
   Finite False (1 / 2 ^ 149) / Finite False 2 = Finite False 0 \<and>
   Finite True (3 / 2 ^ 149) / Finite False 2 = Finite True (1 / 2 ^ 148)"
  by code_simp

lemma fmul_zero_finite: "is_finite y \<Longrightarrow> \<exists>t. (0::float) * y = Finite t 0"
  by (cases y) (simp_all add: zero_float_def times_float_def round32_def)

lemma fadd_signed_zero:
  assumes "is_finite l" "is_float32 l"
  shows "feq (l + Finite t 0) l"
proof -
  obtain s a where l: "l = Finite s a" using assms(1) by (cases l) auto
  have a: "0 \<le> a" "round32 s a = Finite s a" using assms(2) l by auto
  show ?thesis
  proof (cases "a = 0")
    case True
    then show ?thesis by (simp add: l plus_float_def sval_def)
  next
    case False
    then have "0 < a" using a(1) by simp
    then show ?thesis using a(2) by (cases s) (simp_all add: l plus_float_def sval_def)
  qed
qed

lemma desaturate_channel:
  assumes "is_finite l" "is_float32 l" "is_finite (x - l)"
  shows "feq (l + 0 * (x - l)) l"
proof -
  obtain t where "(0::float) * (x - l) = Finite t 0"
    using fmul_zero_finite [OF assms(3)] by blast
  then show ?thesis using fadd_signed_zero [OF assms(1,2)] by simp
qed

lemma fmul_one: "is_float32 y \<Longrightarrow> 1 * y = y"
  by (cases y) (simp_all add: one_float_def times_float_def)

lemma is_finite_fsubD:
  assumes "is_finite (x - l)"
  shows "is_finite x \<and> is_finite l"
  using assms by (cases x; cases l) (simp_all add: minus_float_def split: if_splits)

lemma identity_channel:
  assumes "is_float32 x" "is_finite (x - l)" "fval (x - l) = fval x - fval l"
  shows "feq (l + 1 * (x - l)) x"
proof -
  obtain u b where x: "x = Finite u b" using is_finite_fsubD [OF assms(2)] by (cases x) auto
  obtain s a where l: "l = Finite s a" using is_finite_fsubD [OF assms(2)] by (cases l) auto
  obtain t m where y: "x - l = Finite t m" using assms(2) by (cases "x - l") auto
  have "is_float32 (x - l)" by (simp add: minus_float_def fadd_closed)
  then have one: "1 * (x - l) = Finite t m" by (simp add: fmul_one y)
  have "fval (x - l) = sval t m" by (simp only: y fval.simps)
  moreover have "fval x - fval l = sval u b - sval s a" by (simp add: x l)
  ultimately have v: "sval s a + sval t m = sval u b" using assms(3) by simp
  have b: "0 \<le> b" "round32 u b = Finite u b" using assms(1) x by auto
  have "l + 1 * (x - l) = l + Finite t m" by (simp only: one)
  then have g: "l + 1 * (x - l) = fadd (Finite s a) (Finite t m)"
    by (simp only: l plus_float_def)
  have fin: "feq (fadd (Finite s a) (Finite t m)) (Finite u b)"
  proof (cases "b = 0")
    case True
    then show ?thesis using v by (simp add: sval_def)
  next
    case False
    then have "0 < b" using b(1) by simp
    then show ?thesis
      using v b(2) by (cases u) (simp_all add: sval_def)
  qed
  show ?thesis unfolding g unfolding x by (rule fin)
qed


section \<open>The loop\<close>

text \<open>
  The loop bound is 0 exactly for a region of width 0 or height 0: the product of two
  nonzero \<^verbatim>\<open>int\<close>s does not wrap around to 0 in \<^verbatim>\<open>size_t\<close>.
\<close>

lemma npixels_eq_0_iff: "npixels roi = 0 \<longleftrightarrow> width roi = 0 \<or> height roi = 0"
proof
  assume "width roi = 0 \<or> height roi = 0"
  then show "npixels roi = 0" by (auto simp: npixels_def)
next
  assume z: "npixels roi = 0"
  let ?w = "sint (width roi)" and ?h = "sint (height roi)"
  have bw: "- (2 ^ 31) \<le> ?w" "?w < 2 ^ 31"
    using sint_ge [of "width roi"] sint_lt [of "width roi"] by simp_all
  have bh: "- (2 ^ 31) \<le> ?h" "?h < 2 ^ 31"
    using sint_ge [of "height roi"] sint_lt [of "height roi"] by simp_all
  have "(scast (width roi) :: 64 word) * scast (height roi) = 0"
    using z by (simp add: npixels_def unat_eq_0)
  then have "(word_of_int ?w :: 64 word) * word_of_int ?h = 0"
    by (simp only: of_int_sint)
  then have "(word_of_int (?w * ?h) :: 64 word) = 0"
    by (simp only: of_int_mult)
  then have "(2 :: int) ^ LENGTH(64) dvd ?w * ?h"
    by (simp only: word_of_int_eq_0_iff)
  then have d: "(2 :: int) ^ 64 dvd ?w * ?h" by simp
  have "\<bar>?w * ?h\<bar> \<le> 2 ^ 31 * 2 ^ 31"
    unfolding abs_mult using bw bh by (intro mult_mono) auto
  then have "\<bar>?w * ?h\<bar> < 2 ^ 64" by simp
  then have "?w * ?h = 0" using d by (meson dvd_abs_iff zdvd_not_zless zero_less_abs_iff)
  then have "?w = 0 \<or> ?h = 0" by simp
  then show "width roi = 0 \<or> height roi = 0" by (auto simp: signed_eq_0_iff)
qed

lemma upt_0_3: "[0 ..< 3] = [0, Suc 0, 2]"
  by (simp add: upt_rec)

lemma length_pixel_body [simp]: "length (pixel_body N d wp inb outb k) = length outb"
  by (simp add: pixel_body_def Let_def upt_0_3)

lemma pixel_at_nth:
  "4 * k + 3 < length buf \<Longrightarrow> c < 4 \<Longrightarrow> pixel_at buf k ! c = buf ! (4 * k + c)"
  by (simp add: pixel_at_def)

lemma nth_pixel_body:
  assumes "4 * k + 3 < length outb" "i < length outb"
  shows "pixel_body N d wp inb outb k ! i =
           (if i div 4 = k then out_value N d wp inb i else outb ! i)"
proof (cases "i div 4 = k")
  case False
  then have "i \<noteq> 4 * k" "i \<noteq> 4 * k + 1" "i \<noteq> 4 * k + 2" "i \<noteq> 4 * k + 3"
    by auto
  then show ?thesis using False
    by (simp add: pixel_body_def Let_def upt_0_3)
next
  case True
  then have "i = 4 * k + i mod 4" by auto
  moreover have "i mod 4 = 0 \<or> i mod 4 = 1 \<or> i mod 4 = 2 \<or> i mod 4 = 3" by arith
  ultimately consider "i = 4 * k" "i mod 4 = 0" | "i = 4 * k + 1" "i mod 4 = 1"
    | "i = 4 * k + 2" "i mod 4 = 2" | "i = 4 * k + 3" "i mod 4 = 3"
    by auto
  then show ?thesis
    using assms True
    by cases (simp_all add: pixel_body_def Let_def upt_0_3 out_value_def)
qed

lemma process_loop_fold:
  assumes "4 * n \<le> length inb" "4 * n \<le> length outb"
  shows "process_loop N d wp inb n k outb =
           Inr (fold (\<lambda>j ob. pixel_body N d wp inb ob j) [k ..< n] outb)"
  using assms
proof (induction N d wp inb n k outb rule: process_loop.induct)
  case (1 N d wp inb n k outb)
  show ?case
  proof (cases "k < n")
    case False
    then show ?thesis by (simp add: process_loop.simps [of _ _ _ _ n k])
  next
    case True
    then have b: "4 * k + 3 < length inb" "4 * k + 3 < length outb"
      using "1.prems" by auto
    have pp: "process_pixel N d wp inb outb k = Inr (pixel_body N d wp inb outb k)"
      using b by (simp add: process_pixel_def)
    have "process_loop N d wp inb n (Suc k) (pixel_body N d wp inb outb k) =
            Inr (fold (\<lambda>j ob. pixel_body N d wp inb ob j) [Suc k ..< n]
                   (pixel_body N d wp inb outb k))"
      using "1.IH" [OF True pp] "1.prems" by simp
    then show ?thesis
      using True pp by (simp add: process_loop.simps [of _ _ _ _ n k] upt_conv_Cons)
  qed
qed

lemma length_fold_body [simp]:
  "length (fold (\<lambda>j ob. pixel_body N d wp inb ob j) ks outb) = length outb"
  by (induction ks arbitrary: outb) simp_all

lemma nth_fold_body:
  assumes "4 * n \<le> length outb" "i < length outb"
  shows "fold (\<lambda>j ob. pixel_body N d wp inb ob j) [k ..< n] outb ! i =
           (if k \<le> i div 4 \<and> i div 4 < n then out_value N d wp inb i else outb ! i)"
  using assms
proof (induction n)
  case 0
  then show ?case by simp
next
  case (Suc n)
  show ?case
  proof (cases "k \<le> n")
    case False
    then show ?thesis by auto
  next
    case True
    have b: "4 * n + 3 < length outb" using Suc.prems by simp
    have ih: "fold (\<lambda>j ob. pixel_body N d wp inb ob j) [k ..< n] outb ! i =
           (if k \<le> i div 4 \<and> i div 4 < n then out_value N d wp inb i else outb ! i)"
      using Suc by simp
    show ?thesis
      using True b Suc.prems(2) ih
      by (auto simp: nth_pixel_body)
  qed
qed

text \<open>
  With both buffers long enough for the \<open>npixels roi_in\<close> pixels, \<open>process\<close> returns, and
  the output buffer holds \<open>out_value\<close> in those pixels and its old content after them.
\<close>

lemma process_nth:
  assumes "4 * npixels roi_in \<le> length ivoid" "4 * npixels roi_in \<le> length ovoid"
  shows "\<exists>out. process N d wp ivoid ovoid roi_in roi_out = Inr out \<and>
           length out = length ovoid \<and>
           (\<forall>i<length ovoid. out ! i =
              (if i div 4 < npixels roi_in then out_value N d wp ivoid i else ovoid ! i))"
  using assms
  by (simp add: process_def process_loop_fold nth_fold_body)

lemma out_value_colour:
  assumes "c < 3"
  shows "out_value N d wp inb (4 * k + c) =
           N (pixel_at inb k) (luma_method d) wp +
           saturation_factor d * (pixel_at inb k ! c - N (pixel_at inb k) (luma_method d) wp)"
  using assms by (simp add: out_value_def Let_def)

lemma out_value_alpha:
  assumes "4 * k + 3 < length inb"
  shows "out_value N d wp inb (4 * k + 3) = inb ! (4 * k + 3)"
proof -
  have "(4 * k + 3) div 4 = k" "(4 * k + 3) mod 4 = 3" by auto
  then show ?thesis using assms by (simp add: out_value_def Let_def pixel_at_def)
qed

lemma out_value_cong:
  "pixel_at inb (i div 4) = pixel_at inb' (i div 4) \<Longrightarrow>
   out_value N d wp inb i = out_value N d wp inb' i"
  by (simp add: out_value_def)

lemma pixel_at_eqI:
  assumes "4 * k + 3 < length a" "4 * k + 3 < length b"
    and "\<And>j. j < 4 \<Longrightarrow> a ! (4 * k + j) = b ! (4 * k + j)"
  shows "pixel_at a k = pixel_at b k"
proof (rule nth_equalityI)
  show "length (pixel_at a k) = length (pixel_at b k)"
    using assms(1,2) by (simp add: pixel_at_def)
next
  fix j assume "j < length (pixel_at a k)"
  then have j: "j < 4" by (simp add: pixel_at_def)
  then show "pixel_at a k ! j = pixel_at b k ! j"
    using assms by (simp add: pixel_at_nth)
qed

lemma process_pixels:
  assumes "4 * npixels roi_in \<le> length ivoid" "4 * npixels roi_in \<le> length ovoid"
  shows "\<exists>out. process N d wp ivoid ovoid roi_in roi_out = Inr out \<and>
           length out = length ovoid \<and>
           (\<forall>k<npixels roi_in. \<forall>c<3. out ! (4 * k + c) =
              N (pixel_at ivoid k) (luma_method d) wp +
              saturation_factor d *
                (pixel_at ivoid k ! c - N (pixel_at ivoid k) (luma_method d) wp)) \<and>
           (\<forall>k<npixels roi_in. out ! (4 * k + 3) = ivoid ! (4 * k + 3))"
proof -
  obtain out where o: "process N d wp ivoid ovoid roi_in roi_out = Inr out"
      "length out = length ovoid"
      "\<And>i. i < length ovoid \<Longrightarrow> out ! i =
              (if i div 4 < npixels roi_in then out_value N d wp ivoid i else ovoid ! i)"
    using process_nth [OF assms, of N d wp roi_out] by blast
  have col: "out ! (4 * k + c) =
              N (pixel_at ivoid k) (luma_method d) wp +
              saturation_factor d *
                (pixel_at ivoid k ! c - N (pixel_at ivoid k) (luma_method d) wp)"
    if "k < npixels roi_in" "c < 3" for k c
  proof -
    have "4 * k + c < length ovoid" "(4 * k + c) div 4 = k" using that assms by auto
    then show ?thesis using o(3) [of "4 * k + c"] that by (simp add: out_value_colour)
  qed
  have al: "out ! (4 * k + 3) = ivoid ! (4 * k + 3)" if "k < npixels roi_in" for k
  proof -
    have "4 * k + 3 < length ovoid" "4 * k + 3 < length ivoid" "(4 * k + 3) div 4 = k"
      using that assms by auto
    then show ?thesis using o(3) [of "4 * k + 3"] that by (simp add: out_value_alpha)
  qed
  show ?thesis using o(1,2) col al by blast
qed

section \<open>The claims\<close>

text \<open>
  C1. Whatever the buffers, the selector, the work profile and the factor (no value of the
  factor is clamped or refused), \<open>process\<close> stores in each of the three colour channels
  \<open>c\<close> of each pixel \<open>k\<close> of the region the value
  \<open>luma + saturation_factor * (in[4k+c] - luma)\<close>, where \<open>luma\<close> is the norm of input
  pixel \<open>k\<close>. An output pixel depends on the input pixel of the same index only: a second
  input buffer with the same pixel \<open>k\<close> gives the same output pixel \<open>k\<close>. The buffers hold
  the pixels of the region; the arithmetic is that of the channel type.
\<close>

theorem process_formula:
  fixes N :: "('a::{plus,minus,times}, 'm, 'p) rgb_norm"
  assumes "4 * npixels roi_in \<le> length ivoid" and "4 * npixels roi_in \<le> length ovoid"
  shows "\<exists>out. process N d work_profile ivoid ovoid roi_in roi_out = Inr out \<and>
           (\<forall>k<npixels roi_in. \<forall>c<3. out ! (4 * k + c) =
              N (pixel_at ivoid k) (luma_method d) work_profile +
              saturation_factor d *
                (ivoid ! (4 * k + c) - N (pixel_at ivoid k) (luma_method d) work_profile)) \<and>
           (\<forall>ivoid' out'.
              4 * npixels roi_in \<le> length ivoid' \<and>
              process N d work_profile ivoid' ovoid roi_in roi_out = Inr out' \<longrightarrow>
              (\<forall>k<npixels roi_in. pixel_at ivoid' k = pixel_at ivoid k \<longrightarrow>
                 pixel_at out' k = pixel_at out k))"
proof -
  let ?n = "npixels roi_in"
  obtain out where o: "process N d work_profile ivoid ovoid roi_in roi_out = Inr out"
    "length out = length ovoid"
    "\<forall>k<?n. \<forall>c<3. out ! (4 * k + c) =
              N (pixel_at ivoid k) (luma_method d) work_profile +
              saturation_factor d *
                (pixel_at ivoid k ! c - N (pixel_at ivoid k) (luma_method d) work_profile)"
    using process_pixels [OF assms, of N d work_profile roi_out] by blast
  have v: "\<forall>i<length ovoid. out ! i =
              (if i div 4 < ?n then out_value N d work_profile ivoid i else ovoid ! i)"
    using process_nth [OF assms, of N d work_profile roi_out] o(1) by auto
  have "pixel_at ivoid k ! c = ivoid ! (4 * k + c)" if "k < ?n" "c < 3" for k c
    using that assms(1) by (simp add: pixel_at_nth)
  then have formula: "\<forall>k<?n. \<forall>c<3. out ! (4 * k + c) =
              N (pixel_at ivoid k) (luma_method d) work_profile +
              saturation_factor d *
                (ivoid ! (4 * k + c) - N (pixel_at ivoid k) (luma_method d) work_profile)"
    using o(3) by auto
  have local: "pixel_at out' k = pixel_at out k"
    if l: "4 * ?n \<le> length ivoid'"
      and p: "process N d work_profile ivoid' ovoid roi_in roi_out = Inr out'"
      and k: "k < ?n" and e: "pixel_at ivoid' k = pixel_at ivoid k"
    for ivoid' out' k
  proof -
    have v': "length out' = length ovoid" "\<forall>i<length ovoid. out' ! i =
              (if i div 4 < ?n then out_value N d work_profile ivoid' i else ovoid ! i)"
      using process_nth [OF l assms(2), of N d work_profile roi_out] p by auto
    have b: "4 * k + 3 < length ovoid" using k assms(2) by simp
    show ?thesis
    proof (rule pixel_at_eqI)
      show "4 * k + 3 < length out'" "4 * k + 3 < length out" using b v'(1) o(2) by simp_all
    next
      fix j :: nat assume j: "j < 4"
      then have i: "4 * k + j < length ovoid" "(4 * k + j) div 4 = k" using b by auto
      have "out' ! (4 * k + j) = out_value N d work_profile ivoid' (4 * k + j)"
        using v'(2) i k by simp
      also have "\<dots> = out_value N d work_profile ivoid (4 * k + j)"
        by (rule out_value_cong) (simp add: i(2) e)
      also have "\<dots> = out ! (4 * k + j)" using v i k by simp
      finally show "out' ! (4 * k + j) = out ! (4 * k + j)" .
    qed
  qed
  show ?thesis using o(1) formula local by blast
qed

theorem process_formula_witness:
  "4 * npixels \<lparr>width = 1, height = 1\<rparr> \<le>
     length [Finite False 1, Finite False 0, Finite False 0, Finite False 1] \<and>
   4 * npixels \<lparr>width = 1, height = 1\<rparr> \<le> length [NaN, NaN, NaN, NaN] \<and>
   (\<exists>out. process average_norm
            \<lparr>saturation_factor = Finite False 3, luma_method = DT_RGB_NORM_AVERAGE\<rparr>
            (None :: unit option)
            [Finite False 1, Finite False 0, Finite False 0, Finite False 1]
            [NaN, NaN, NaN, NaN]
            \<lparr>width = 1, height = 1\<rparr> \<lparr>width = 1, height = 1\<rparr> = Inr out \<and>
          out ! 0 = Finite False (11184811 / 33554432) +
                    Finite False 3 * (Finite False 1 - Finite False (11184811 / 33554432)) \<and>
          out ! 1 = Finite False (11184811 / 33554432) +
                    Finite False 3 * (Finite False 0 - Finite False (11184811 / 33554432)) \<and>
          out ! 2 = Finite False (11184811 / 33554432) +
                    Finite False 3 * (Finite False 0 - Finite False (11184811 / 33554432)))"
proof -
  let ?iv = "[Finite False 1, Finite False 0, Finite False 0, Finite False 1]"
  let ?ov = "[NaN, NaN, NaN, NaN]"
  let ?roi = "\<lparr>width = 1, height = 1\<rparr>"
  let ?d = "\<lparr>saturation_factor = Finite False 3, luma_method = DT_RGB_NORM_AVERAGE\<rparr>"
  let ?l = "Finite False (11184811 / 33554432)"
  have n: "npixels ?roi = 1" by (simp add: npixels_def)
  have h1: "4 * npixels ?roi \<le> length ?iv" and h2: "4 * npixels ?roi \<le> length ?ov"
    by (simp_all add: n)
  have l: "average_norm (pixel_at ?iv 0) DT_RGB_NORM_AVERAGE (None :: unit option) = ?l"
    by code_simp
  obtain out where o:
    "process average_norm ?d (None :: unit option) ?iv ?ov ?roi ?roi = Inr out"
    "\<forall>k<npixels ?roi. \<forall>c<3. out ! (4 * k + c) =
       average_norm (pixel_at ?iv k) (luma_method ?d) (None :: unit option) +
       saturation_factor ?d *
         (?iv ! (4 * k + c) -
          average_norm (pixel_at ?iv k) (luma_method ?d) (None :: unit option))"
    using process_formula [OF h1 h2, of average_norm ?d "None :: unit option" ?roi] by blast
  have k0: "(0::nat) < npixels ?roi" by (simp add: n)
  have r: "out ! (4 * 0 + c) = ?l + Finite False 3 * (?iv ! (4 * 0 + c) - ?l)" if "c < 3" for c
    using o(2) [rule_format, OF k0 that] by (simp add: l)
  have "out ! 0 = ?l + Finite False 3 * (Finite False 1 - ?l)"
    "out ! 1 = ?l + Finite False 3 * (Finite False 0 - ?l)"
    "out ! 2 = ?l + Finite False 3 * (Finite False 0 - ?l)"
    using r [of 0] r [of 1] r [of 2] by (simp_all add: numeral_2_eq_2)
  then show ?thesis using h1 h2 o(1) by blast
qed

text \<open>
  C2 (amended). \<open>process\<close> does not compare the two regions and has no failure for a
  mismatch: \<^verbatim>\<open>roi_out\<close> is never read. Whenever both buffers hold the
  \<open>roi_in.width * roi_in.height\<close> pixels, it returns normally, with the same result as for
  \<open>roi_out = roi_in\<close>, and has written every pixel of \<open>roi_in\<close>.
\<close>

theorem process_ignores_roi_out:
  fixes N :: "('a::{plus,minus,times}, 'm, 'p) rgb_norm"
  assumes "4 * npixels roi_in \<le> length ivoid" and "4 * npixels roi_in \<le> length ovoid"
  shows "\<exists>out. process N d work_profile ivoid ovoid roi_in roi_out = Inr out \<and>
           process N d work_profile ivoid ovoid roi_in roi_in = Inr out \<and>
           length out = length ovoid \<and>
           (\<forall>i<4 * npixels roi_in. out ! i = out_value N d work_profile ivoid i)"
proof -
  obtain out where o: "process N d work_profile ivoid ovoid roi_in roi_out = Inr out"
      "length out = length ovoid"
      "\<forall>i<length ovoid. out ! i =
              (if i div 4 < npixels roi_in then out_value N d work_profile ivoid i
               else ovoid ! i)"
    using process_nth [OF assms, of N d work_profile roi_out] by blast
  have "out ! i = out_value N d work_profile ivoid i" if "i < 4 * npixels roi_in" for i
  proof -
    have "i < length ovoid" "i div 4 < npixels roi_in" using that assms(2) by auto
    then show ?thesis using o(3) by simp
  qed
  moreover have "process N d work_profile ivoid ovoid roi_in roi_in = Inr out"
    using o(1) by (simp add: process_def)
  ultimately show ?thesis using o(1,2) by blast
qed

theorem process_ignores_roi_out_witness:
  "4 * npixels \<lparr>width = 2, height = 1\<rparr> \<le> length [3, 5, 7, 11, 13, 17, 19, 23 :: int] \<and>
   4 * npixels \<lparr>width = 2, height = 1\<rparr> \<le> length [0, 0, 0, 0, 0, 0, 0, 0 :: int] \<and>
   (\<exists>out. process (norm_of_value 4)
            \<lparr>saturation_factor = 2, luma_method = DT_RGB_NORM_AVERAGE\<rparr>
            (None :: unit option)
            [3, 5, 7, 11, 13, 17, 19, 23 :: int] [0, 0, 0, 0, 0, 0, 0, 0]
            \<lparr>width = 2, height = 1\<rparr> \<lparr>width = 1, height = 2\<rparr> = Inr out \<and>
          process (norm_of_value 4)
            \<lparr>saturation_factor = 2, luma_method = DT_RGB_NORM_AVERAGE\<rparr>
            (None :: unit option)
            [3, 5, 7, 11, 13, 17, 19, 23 :: int] [0, 0, 0, 0, 0, 0, 0, 0]
            \<lparr>width = 2, height = 1\<rparr> \<lparr>width = 2, height = 1\<rparr> = Inr out \<and>
          length out = 8)"
proof -
  let ?iv = "[3, 5, 7, 11, 13, 17, 19, 23 :: int]"
  let ?ov = "[0, 0, 0, 0, 0, 0, 0, 0 :: int]"
  let ?roi = "\<lparr>width = 2, height = 1\<rparr>"
  have n: "npixels ?roi = 2" by (simp add: npixels_def)
  have h1: "4 * npixels ?roi \<le> length ?iv" and h2: "4 * npixels ?roi \<le> length ?ov"
    by (simp_all add: n)
  obtain out where "process (norm_of_value 4)
            \<lparr>saturation_factor = 2, luma_method = DT_RGB_NORM_AVERAGE\<rparr>
            (None :: unit option) ?iv ?ov ?roi \<lparr>width = 1, height = 2\<rparr> = Inr out"
      "process (norm_of_value 4)
            \<lparr>saturation_factor = 2, luma_method = DT_RGB_NORM_AVERAGE\<rparr>
            (None :: unit option) ?iv ?ov ?roi ?roi = Inr out"
      "length out = length ?ov"
    using process_ignores_roi_out [OF h1 h2] by blast
  then show ?thesis using h1 h2 by simp
qed

text \<open>
  C2 as stated fails: the input region is 2 by 1, the output region 1 by 2, and \<open>process\<close>
  returns normally with both pixels written.
\<close>

theorem process_dimension_mismatch_counterexample:
  "\<lparr>width = 2, height = 1\<rparr> \<noteq> \<lparr>width = 1, height = 2\<rparr> \<and>
   process average_norm \<lparr>saturation_factor = 1, luma_method = DT_RGB_NORM_AVERAGE\<rparr>
     (None :: unit option)
     [Finite False 1, Finite False 1, Finite False 1, Finite False 1,
      Finite False (1 / 2), Finite False (1 / 2), Finite False (1 / 2), Finite False 1]
     [NaN, NaN, NaN, NaN, NaN, NaN, NaN, NaN]
     \<lparr>width = 2, height = 1\<rparr> \<lparr>width = 1, height = 2\<rparr> =
   Inr [Finite False 1, Finite False 1, Finite False 1, Finite False 1,
        Finite False (1 / 2), Finite False (1 / 2), Finite False (1 / 2), Finite False 1]"
  by code_simp

text \<open>
  C3 (amended). \<open>process\<close> does not inspect the work profile. With the selector
  \<^verbatim>\<open>DT_RGB_NORM_LUMINANCE\<close> and no profile (\<^verbatim>\<open>NULL\<close>) it returns normally: the luma of
  each pixel is the float that \<^verbatim>\<open>dt_rgb_norm\<close> returns for the absent profile, and the
  colour channels follow the formula of C1. No error is reported.
\<close>

theorem process_without_work_profile:
  fixes N :: "('a::{plus,minus,times}, dt_iop_rgb_norms_t, 'p) rgb_norm"
  assumes "4 * npixels roi_in \<le> length ivoid" and "4 * npixels roi_in \<le> length ovoid"
    and "luma_method d = DT_RGB_NORM_LUMINANCE"
  shows "\<exists>out. process N d None ivoid ovoid roi_in roi_out = Inr out \<and>
           (\<forall>k<npixels roi_in. \<forall>c<3. out ! (4 * k + c) =
              N (pixel_at ivoid k) DT_RGB_NORM_LUMINANCE None +
              saturation_factor d *
                (ivoid ! (4 * k + c) - N (pixel_at ivoid k) DT_RGB_NORM_LUMINANCE None))"
proof -
  obtain out where o: "process N d None ivoid ovoid roi_in roi_out = Inr out"
    "\<forall>k<npixels roi_in. \<forall>c<3. out ! (4 * k + c) =
              N (pixel_at ivoid k) (luma_method d) None +
              saturation_factor d *
                (pixel_at ivoid k ! c - N (pixel_at ivoid k) (luma_method d) None)"
    using process_pixels [OF assms(1,2), of N d None roi_out] by blast
  have "pixel_at ivoid k ! c = ivoid ! (4 * k + c)" if "k < npixels roi_in" "c < 3" for k c
    using that assms(1) by (simp add: pixel_at_nth)
  then show ?thesis using o assms(3) by auto
qed

theorem process_without_work_profile_witness:
  "4 * npixels \<lparr>width = 1, height = 1\<rparr> \<le>
     length [Finite False 1, Finite False (1 / 2), Finite False 0, Finite False 1] \<and>
   4 * npixels \<lparr>width = 1, height = 1\<rparr> \<le> length [NaN, NaN, NaN, NaN] \<and>
   luma_method \<lparr>saturation_factor = Finite False 1, luma_method = DT_RGB_NORM_LUMINANCE\<rparr> =
     DT_RGB_NORM_LUMINANCE \<and>
   (\<exists>out. process (norm_of_value (Finite False (1 / 2)))
            \<lparr>saturation_factor = Finite False 1, luma_method = DT_RGB_NORM_LUMINANCE\<rparr>
            (None :: unit option)
            [Finite False 1, Finite False (1 / 2), Finite False 0, Finite False 1]
            [NaN, NaN, NaN, NaN]
            \<lparr>width = 1, height = 1\<rparr> \<lparr>width = 1, height = 1\<rparr> = Inr out \<and>
          out ! 0 = Finite False (1 / 2) +
                    Finite False 1 * (Finite False 1 - Finite False (1 / 2)) \<and>
          out ! 1 = Finite False (1 / 2) +
                    Finite False 1 * (Finite False (1 / 2) - Finite False (1 / 2)) \<and>
          out ! 2 = Finite False (1 / 2) +
                    Finite False 1 * (Finite False 0 - Finite False (1 / 2)))"
proof -
  let ?iv = "[Finite False 1, Finite False (1 / 2), Finite False 0, Finite False 1]"
  let ?ov = "[NaN, NaN, NaN, NaN]"
  let ?roi = "\<lparr>width = 1, height = 1\<rparr>"
  let ?d = "\<lparr>saturation_factor = Finite False 1, luma_method = DT_RGB_NORM_LUMINANCE\<rparr>"
  let ?N = "norm_of_value (Finite False (1 / 2)) ::
              (float, dt_iop_rgb_norms_t, unit) rgb_norm"
  let ?l = "Finite False (1 / 2)"
  have n: "npixels ?roi = 1" by (simp add: npixels_def)
  have h1: "4 * npixels ?roi \<le> length ?iv" and h2: "4 * npixels ?roi \<le> length ?ov"
    by (simp_all add: n)
  have h3: "luma_method ?d = DT_RGB_NORM_LUMINANCE" by simp
  obtain out where o: "process ?N ?d None ?iv ?ov ?roi ?roi = Inr out"
    "\<forall>k<npixels ?roi. \<forall>c<3. out ! (4 * k + c) =
       ?N (pixel_at ?iv k) DT_RGB_NORM_LUMINANCE None +
       saturation_factor ?d *
         (?iv ! (4 * k + c) - ?N (pixel_at ?iv k) DT_RGB_NORM_LUMINANCE None)"
    using process_without_work_profile [OF h1 h2 h3, of ?N ?roi] by blast
  have k0: "(0::nat) < npixels ?roi" by (simp add: n)
  have r: "out ! (4 * 0 + c) = ?l + Finite False 1 * (?iv ! (4 * 0 + c) - ?l)" if "c < 3" for c
    using o(2) [rule_format, OF k0 that] by (simp add: norm_of_value_def)
  have "out ! 0 = ?l + Finite False 1 * (Finite False 1 - ?l)"
    "out ! 1 = ?l + Finite False 1 * (Finite False (1 / 2) - ?l)"
    "out ! 2 = ?l + Finite False 1 * (Finite False 0 - ?l)"
    using r [of 0] r [of 1] r [of 2] by (simp_all add: numeral_2_eq_2)
  then show ?thesis using h1 h2 h3 o(1) by blast
qed

text \<open>
  C3 as stated fails: selector \<^verbatim>\<open>DT_RGB_NORM_LUMINANCE\<close>, no work profile, and \<open>process\<close>
  returns normally with the pixel written (here \<^verbatim>\<open>dt_rgb_norm\<close> returns 0.5).
\<close>

theorem process_invalid_color_context_counterexample:
  "process (norm_of_value (Finite False (1 / 2)))
     \<lparr>saturation_factor = Finite False 1, luma_method = DT_RGB_NORM_LUMINANCE\<rparr>
     (None :: unit option)
     [Finite False 1, Finite False (1 / 2), Finite False 0, Finite False 1]
     [NaN, NaN, NaN, NaN]
     \<lparr>width = 1, height = 1\<rparr> \<lparr>width = 1, height = 1\<rparr> =
   Inr [Finite False 1, Finite False (1 / 2), Finite False 0, Finite False 1]"
  by code_simp

text \<open>
  C4. The alpha channel of every pixel of the region is copied from the input pixel of the
  same index, for every factor, selector and work profile.
\<close>

theorem process_alpha:
  fixes N :: "('a::{plus,minus,times}, 'm, 'p) rgb_norm"
  assumes "4 * npixels roi_in \<le> length ivoid" and "4 * npixels roi_in \<le> length ovoid"
  shows "\<exists>out. process N d work_profile ivoid ovoid roi_in roi_out = Inr out \<and>
           (\<forall>k<npixels roi_in. out ! (4 * k + 3) = ivoid ! (4 * k + 3))"
  using process_pixels [OF assms, of N d work_profile roi_out] by blast

theorem process_alpha_witness:
  "4 * npixels \<lparr>width = 2, height = 1\<rparr> \<le> length [3, 5, 7, 11, 13, 17, 19, 23 :: int] \<and>
   4 * npixels \<lparr>width = 2, height = 1\<rparr> \<le> length [0, 0, 0, 0, 0, 0, 0, 0 :: int] \<and>
   (\<exists>out. process (norm_of_value 4)
            \<lparr>saturation_factor = 2, luma_method = DT_RGB_NORM_AVERAGE\<rparr>
            (None :: unit option)
            [3, 5, 7, 11, 13, 17, 19, 23 :: int] [0, 0, 0, 0, 0, 0, 0, 0]
            \<lparr>width = 2, height = 1\<rparr> \<lparr>width = 2, height = 1\<rparr> = Inr out \<and>
          out ! 3 = 11 \<and> out ! 7 = 23)"
proof -
  let ?iv = "[3, 5, 7, 11, 13, 17, 19, 23 :: int]"
  let ?ov = "[0, 0, 0, 0, 0, 0, 0, 0 :: int]"
  let ?roi = "\<lparr>width = 2, height = 1\<rparr>"
  have n: "npixels ?roi = 2" by (simp add: npixels_def)
  have h1: "4 * npixels ?roi \<le> length ?iv" and h2: "4 * npixels ?roi \<le> length ?ov"
    by (simp_all add: n)
  obtain out where o: "process (norm_of_value 4)
            \<lparr>saturation_factor = 2, luma_method = DT_RGB_NORM_AVERAGE\<rparr>
            (None :: unit option) ?iv ?ov ?roi ?roi = Inr out"
      "\<forall>k<npixels ?roi. out ! (4 * k + 3) = ?iv ! (4 * k + 3)"
    using process_alpha [OF h1 h2] by blast
  have a: "(0::nat) < npixels ?roi" "(1::nat) < npixels ?roi" by (simp_all add: n)
  have "out ! (4 * 0 + 3) = ?iv ! (4 * 0 + 3)" "out ! (4 * 1 + 3) = ?iv ! (4 * 1 + 3)"
    using o(2) a by blast+
  then have "out ! 3 = 11" "out ! 7 = 23" by simp_all
  then show ?thesis using h1 h2 o(1) by blast
qed

text \<open>
  C5 (amended). With factor 1.0 the alpha channel of every pixel of the region is the
  input's, and a colour channel of the output compares equal (\<^verbatim>\<open>==\<close>) to the input
  channel whenever the subtraction \<open>in[4k+c] - luma\<close> is exact in \<^verbatim>\<open>float\<close>, that is,
  finite and not rounded. Where the subtraction rounds, the output can differ from the
  input.
\<close>

theorem process_identity:
  fixes N :: "(float, 'm, 'p) rgb_norm"
  assumes "4 * npixels roi_in \<le> length ivoid" and "4 * npixels roi_in \<le> length ovoid"
    and "saturation_factor d = 1"
  shows "\<exists>out. process N d work_profile ivoid ovoid roi_in roi_out = Inr out \<and>
           (\<forall>k<npixels roi_in. \<forall>c<3.
              is_float32 (ivoid ! (4 * k + c)) \<and>
              is_finite (ivoid ! (4 * k + c) -
                         N (pixel_at ivoid k) (luma_method d) work_profile) \<and>
              fval (ivoid ! (4 * k + c) - N (pixel_at ivoid k) (luma_method d) work_profile) =
                fval (ivoid ! (4 * k + c)) -
                fval (N (pixel_at ivoid k) (luma_method d) work_profile) \<longrightarrow>
              feq (out ! (4 * k + c)) (ivoid ! (4 * k + c))) \<and>
           (\<forall>k<npixels roi_in. out ! (4 * k + 3) = ivoid ! (4 * k + 3))"
proof -
  obtain out where o: "process N d work_profile ivoid ovoid roi_in roi_out = Inr out"
    "\<forall>k<npixels roi_in. \<forall>c<3. out ! (4 * k + c) =
              N (pixel_at ivoid k) (luma_method d) work_profile +
              saturation_factor d *
                (pixel_at ivoid k ! c - N (pixel_at ivoid k) (luma_method d) work_profile)"
    "\<forall>k<npixels roi_in. out ! (4 * k + 3) = ivoid ! (4 * k + 3)"
    using process_pixels [OF assms(1,2), of N d work_profile roi_out] by blast
  have "feq (out ! (4 * k + c)) (ivoid ! (4 * k + c))"
    if k: "k < npixels roi_in" and c: "c < 3"
      and f: "is_float32 (ivoid ! (4 * k + c))"
             "is_finite (ivoid ! (4 * k + c) -
                         N (pixel_at ivoid k) (luma_method d) work_profile)"
             "fval (ivoid ! (4 * k + c) -
                    N (pixel_at ivoid k) (luma_method d) work_profile) =
                fval (ivoid ! (4 * k + c)) -
                fval (N (pixel_at ivoid k) (luma_method d) work_profile)"
    for k c
  proof -
    let ?l = "N (pixel_at ivoid k) (luma_method d) work_profile"
    have p: "pixel_at ivoid k ! c = ivoid ! (4 * k + c)"
      using k c assms(1) by (simp add: pixel_at_nth)
    have "out ! (4 * k + c) = ?l + 1 * (ivoid ! (4 * k + c) - ?l)"
      using o(2) k c p assms(3) by simp
    then show ?thesis using identity_channel [OF f] by simp
  qed
  then show ?thesis using o(1,3) by blast
qed

theorem process_identity_witness:
  "4 * npixels \<lparr>width = 1, height = 1\<rparr> \<le>
     length [Finite False (13421773 / 16777216), Finite False (13421773 / 33554432),
             Finite False (13421773 / 67108864), Finite False 1] \<and>
   4 * npixels \<lparr>width = 1, height = 1\<rparr> \<le> length [NaN, NaN, NaN, NaN] \<and>
   saturation_factor \<lparr>saturation_factor = 1 :: float, luma_method = DT_RGB_NORM_AVERAGE\<rparr> = 1 \<and>
   average_norm [Finite False (13421773 / 16777216), Finite False (13421773 / 33554432),
                 Finite False (13421773 / 67108864), Finite False 1]
     DT_RGB_NORM_AVERAGE (None :: unit option) = Finite False (978671 / 2097152) \<and>
   is_float32 (Finite False (13421773 / 16777216)) \<and>
   is_finite (Finite False (13421773 / 16777216) - Finite False (978671 / 2097152)) \<and>
   fval (Finite False (13421773 / 16777216) - Finite False (978671 / 2097152)) =
     fval (Finite False (13421773 / 16777216)) - fval (Finite False (978671 / 2097152)) \<and>
   (\<exists>out. process average_norm
            \<lparr>saturation_factor = 1, luma_method = DT_RGB_NORM_AVERAGE\<rparr>
            (None :: unit option)
            [Finite False (13421773 / 16777216), Finite False (13421773 / 33554432),
             Finite False (13421773 / 67108864), Finite False 1]
            [NaN, NaN, NaN, NaN]
            \<lparr>width = 1, height = 1\<rparr> \<lparr>width = 1, height = 1\<rparr> = Inr out \<and>
          feq (out ! 0) (Finite False (13421773 / 16777216)) \<and>
          out ! 3 = Finite False 1)"
proof -
  let ?iv = "[Finite False (13421773 / 16777216), Finite False (13421773 / 33554432),
              Finite False (13421773 / 67108864), Finite False 1]"
  let ?ov = "[NaN, NaN, NaN, NaN]"
  let ?roi = "\<lparr>width = 1, height = 1\<rparr>"
  let ?d = "\<lparr>saturation_factor = 1 :: float, luma_method = DT_RGB_NORM_AVERAGE\<rparr>"
  let ?l = "Finite False (978671 / 2097152)"
  let ?x = "Finite False (13421773 / 16777216)"
  have n: "npixels ?roi = 1" by (simp add: npixels_def)
  have h1: "4 * npixels ?roi \<le> length ?iv" and h2: "4 * npixels ?roi \<le> length ?ov"
    by (simp_all add: n)
  have h3: "saturation_factor ?d = 1" by simp
  have px: "pixel_at ?iv 0 = ?iv" by (simp add: pixel_at_def)
  have l: "average_norm ?iv DT_RGB_NORM_AVERAGE (None :: unit option) = ?l"
    by code_simp
  have L: "average_norm (pixel_at ?iv 0) DT_RGB_NORM_AVERAGE (None :: unit option) = ?l"
    by (simp add: px l)
  have fx: "is_float32 ?x" by code_simp
  have f0: "is_finite (?x - ?l)" by code_simp
  have f1: "fval (?x - ?l) = fval ?x - fval ?l" by code_simp
  obtain out where o: "process average_norm ?d (None :: unit option) ?iv ?ov ?roi ?roi = Inr out"
    "\<forall>k<npixels ?roi. \<forall>c<3.
       is_float32 (?iv ! (4 * k + c)) \<and>
       is_finite (?iv ! (4 * k + c) -
                  average_norm (pixel_at ?iv k) (luma_method ?d) (None :: unit option)) \<and>
       fval (?iv ! (4 * k + c) -
             average_norm (pixel_at ?iv k) (luma_method ?d) (None :: unit option)) =
         fval (?iv ! (4 * k + c)) -
         fval (average_norm (pixel_at ?iv k) (luma_method ?d) (None :: unit option)) \<longrightarrow>
       feq (out ! (4 * k + c)) (?iv ! (4 * k + c))"
    "\<forall>k<npixels ?roi. out ! (4 * k + 3) = ?iv ! (4 * k + 3)"
    using process_identity [OF h1 h2 h3, of average_norm "None :: unit option" ?roi]
    by blast
  have k0: "(0::nat) < npixels ?roi" by (simp add: n)
  have c0: "(0::nat) < 3" by simp
  have prem: "is_float32 (?iv ! (4 * 0 + 0)) \<and>
       is_finite (?iv ! (4 * 0 + 0) -
                  average_norm (pixel_at ?iv 0) (luma_method ?d) (None :: unit option)) \<and>
       fval (?iv ! (4 * 0 + 0) -
             average_norm (pixel_at ?iv 0) (luma_method ?d) (None :: unit option)) =
         fval (?iv ! (4 * 0 + 0)) -
         fval (average_norm (pixel_at ?iv 0) (luma_method ?d) (None :: unit option))"
    using fx f0 f1 by (simp add: L)
  have "feq (out ! (4 * 0 + 0)) (?iv ! (4 * 0 + 0))"
    using o(2) [rule_format, OF k0 c0 prem] .
  then have "feq (out ! 0) ?x" by simp
  moreover have "out ! 3 = Finite False 1" using o(3) [rule_format, OF k0] by simp
  ultimately show ?thesis using h1 h2 h3 l fx f0 f1 o(1) by simp
qed

text \<open>
  In exact arithmetic, where the channel type is a ring such as the rationals or the
  reals, the same formula with factor 1 is the identity on every pixel of the region.
\<close>

lemma process_identity_exact:
  fixes N :: "('a::ring_1, 'm, 'p) rgb_norm"
  assumes "4 * npixels roi_in \<le> length ivoid" and "4 * npixels roi_in \<le> length ovoid"
    and "saturation_factor d = 1"
  shows "\<exists>out. process N d work_profile ivoid ovoid roi_in roi_out = Inr out \<and>
           take (4 * npixels roi_in) out = take (4 * npixels roi_in) ivoid"
proof -
  let ?n = "npixels roi_in"
  obtain out where o: "process N d work_profile ivoid ovoid roi_in roi_out = Inr out"
      "length out = length ovoid"
      "\<forall>i<length ovoid. out ! i =
              (if i div 4 < ?n then out_value N d work_profile ivoid i else ovoid ! i)"
    using process_nth [OF assms(1,2), of N d work_profile roi_out] by blast
  have v: "out_value N d work_profile ivoid i = ivoid ! i" if "i < 4 * ?n" for i
  proof -
    have "i div 4 < ?n" using that by auto
    then have "4 * (i div 4) + 3 < length ivoid" using assms(1) by arith
    moreover have "i = 4 * (i div 4) + i mod 4" "i mod 4 < 4" by auto
    ultimately have "i = 4 * (i div 4) + i mod 4" "i mod 4 < 4"
      "4 * (i div 4) + 3 < length ivoid" by auto
    then have "pixel_at ivoid (i div 4) ! (i mod 4) = ivoid ! i"
      using pixel_at_nth [of "i div 4" ivoid "i mod 4"] by simp
    then show ?thesis using assms(3) by (auto simp: out_value_def Let_def)
  qed
  have "take (4 * ?n) out = take (4 * ?n) ivoid"
  proof (rule nth_equalityI)
    show "length (take (4 * ?n) out) = length (take (4 * ?n) ivoid)"
      using o(2) assms by simp
  next
    fix i assume "i < length (take (4 * ?n) out)"
    then have i: "i < 4 * ?n" by simp
    then have "i div 4 < ?n" "i < length ovoid" using assms by auto
    then show "take (4 * ?n) out ! i = take (4 * ?n) ivoid ! i"
      using o(3) v [OF i] i by simp
  qed
  then show ?thesis using o(1) by blast
qed

text \<open>
  C5 as stated fails in \<^verbatim>\<open>float\<close>: for the pixel (0.8f, 0.4f, 0.2f, 1) in Average mode
  and factor 1.0 the blue channel of the output is one unit in the last place below the
  input.
\<close>

theorem process_identity_counterexample:
  "process average_norm \<lparr>saturation_factor = 1, luma_method = DT_RGB_NORM_AVERAGE\<rparr>
     (None :: unit option)
     [Finite False (13421773 / 16777216), Finite False (13421773 / 33554432),
      Finite False (13421773 / 67108864), Finite False 1]
     [NaN, NaN, NaN, NaN]
     \<lparr>width = 1, height = 1\<rparr> \<lparr>width = 1, height = 1\<rparr> =
   Inr [Finite False (13421773 / 16777216), Finite False (13421773 / 33554432),
        Finite False (3355443 / 16777216), Finite False 1] \<and>
   is_float32 (Finite False (13421773 / 67108864)) \<and>
   \<not> feq (Finite False (3355443 / 16777216)) (Finite False (13421773 / 67108864))"
  by code_simp

text \<open>
  C6 (amended). With factor 0.0, for every pixel of the region whose luma is a finite
  float and whose differences \<open>in[4k+c] - luma\<close> are finite (no infinity, NaN or
  overflow), the three colour channels of the output compare equal (\<^verbatim>\<open>==\<close>) to the
  luma; the alpha channel of every pixel is the input's.
\<close>

theorem process_full_desaturation:
  fixes N :: "(float, 'm, 'p) rgb_norm"
  assumes "4 * npixels roi_in \<le> length ivoid" and "4 * npixels roi_in \<le> length ovoid"
    and "saturation_factor d = 0"
  shows "\<exists>out. process N d work_profile ivoid ovoid roi_in roi_out = Inr out \<and>
           (\<forall>k<npixels roi_in.
              is_finite (N (pixel_at ivoid k) (luma_method d) work_profile) \<and>
              is_float32 (N (pixel_at ivoid k) (luma_method d) work_profile) \<and>
              (\<forall>c<3. is_finite (ivoid ! (4 * k + c) -
                                  N (pixel_at ivoid k) (luma_method d) work_profile)) \<longrightarrow>
              (\<forall>c<3. feq (out ! (4 * k + c))
                          (N (pixel_at ivoid k) (luma_method d) work_profile))) \<and>
           (\<forall>k<npixels roi_in. out ! (4 * k + 3) = ivoid ! (4 * k + 3))"
proof -
  obtain out where o: "process N d work_profile ivoid ovoid roi_in roi_out = Inr out"
    "\<forall>k<npixels roi_in. \<forall>c<3. out ! (4 * k + c) =
              N (pixel_at ivoid k) (luma_method d) work_profile +
              saturation_factor d *
                (pixel_at ivoid k ! c - N (pixel_at ivoid k) (luma_method d) work_profile)"
    "\<forall>k<npixels roi_in. out ! (4 * k + 3) = ivoid ! (4 * k + 3)"
    using process_pixels [OF assms(1,2), of N d work_profile roi_out] by blast
  have "feq (out ! (4 * k + c)) (N (pixel_at ivoid k) (luma_method d) work_profile)"
    if k: "k < npixels roi_in" and c: "c < 3"
      and f: "is_finite (N (pixel_at ivoid k) (luma_method d) work_profile)"
             "is_float32 (N (pixel_at ivoid k) (luma_method d) work_profile)"
             "\<forall>c<3. is_finite (ivoid ! (4 * k + c) -
                                N (pixel_at ivoid k) (luma_method d) work_profile)"
    for k c
  proof -
    let ?l = "N (pixel_at ivoid k) (luma_method d) work_profile"
    have p: "pixel_at ivoid k ! c = ivoid ! (4 * k + c)"
      using k c assms(1) by (simp add: pixel_at_nth)
    have "out ! (4 * k + c) = ?l + 0 * (ivoid ! (4 * k + c) - ?l)"
      using o(2) k c p assms(3) by simp
    moreover have "is_finite (ivoid ! (4 * k + c) - ?l)" using f(3) c by blast
    ultimately show ?thesis using desaturate_channel [OF f(1,2)] by simp
  qed
  then show ?thesis using o(1,3) by blast
qed


theorem process_full_desaturation_witness:
  "4 * npixels \<lparr>width = 1, height = 1\<rparr> \<le>
     length [Finite False (13421773 / 16777216), Finite False (13421773 / 33554432),
             Finite False (13421773 / 67108864), Finite False 1] \<and>
   4 * npixels \<lparr>width = 1, height = 1\<rparr> \<le> length [NaN, NaN, NaN, NaN] \<and>
   saturation_factor \<lparr>saturation_factor = 0 :: float, luma_method = DT_RGB_NORM_AVERAGE\<rparr> = 0 \<and>
   average_norm [Finite False (13421773 / 16777216), Finite False (13421773 / 33554432),
                 Finite False (13421773 / 67108864), Finite False 1]
     DT_RGB_NORM_AVERAGE (None :: unit option) = Finite False (978671 / 2097152) \<and>
   is_finite (Finite False (978671 / 2097152)) \<and>
   is_float32 (Finite False (978671 / 2097152)) \<and>
   is_finite (Finite False (13421773 / 16777216) - Finite False (978671 / 2097152)) \<and>
   is_finite (Finite False (13421773 / 33554432) - Finite False (978671 / 2097152)) \<and>
   is_finite (Finite False (13421773 / 67108864) - Finite False (978671 / 2097152)) \<and>
   (\<exists>out. process average_norm
            \<lparr>saturation_factor = 0, luma_method = DT_RGB_NORM_AVERAGE\<rparr>
            (None :: unit option)
            [Finite False (13421773 / 16777216), Finite False (13421773 / 33554432),
             Finite False (13421773 / 67108864), Finite False 1]
            [NaN, NaN, NaN, NaN]
            \<lparr>width = 1, height = 1\<rparr> \<lparr>width = 1, height = 1\<rparr> = Inr out \<and>
          feq (out ! 0) (Finite False (978671 / 2097152)) \<and>
          feq (out ! 1) (Finite False (978671 / 2097152)) \<and>
          feq (out ! 2) (Finite False (978671 / 2097152)) \<and>
          out ! 3 = Finite False 1)"
proof -
  let ?iv = "[Finite False (13421773 / 16777216), Finite False (13421773 / 33554432),
              Finite False (13421773 / 67108864), Finite False 1]"
  let ?ov = "[NaN, NaN, NaN, NaN]"
  let ?roi = "\<lparr>width = 1, height = 1\<rparr>"
  let ?d = "\<lparr>saturation_factor = 0 :: float, luma_method = DT_RGB_NORM_AVERAGE\<rparr>"
  let ?l = "Finite False (978671 / 2097152)"
  have n: "npixels ?roi = 1" by (simp add: npixels_def)
  have h1: "4 * npixels ?roi \<le> length ?iv" and h2: "4 * npixels ?roi \<le> length ?ov"
    by (simp_all add: n)
  have h3: "saturation_factor ?d = 0" by simp
  have px: "pixel_at ?iv 0 = ?iv" by (simp add: pixel_at_def)
  have l: "average_norm ?iv DT_RGB_NORM_AVERAGE (None :: unit option) = ?l"
    by code_simp
  have fl: "is_float32 ?l" by code_simp
  have f0: "is_finite (Finite False (13421773 / 16777216) - ?l)" by code_simp
  have f1: "is_finite (Finite False (13421773 / 33554432) - ?l)" by code_simp
  have f2: "is_finite (Finite False (13421773 / 67108864) - ?l)" by code_simp
  have fin: "\<forall>c<3. is_finite (?iv ! (4 * 0 + c) - ?l)"
  proof (intro allI impI)
    fix c :: nat assume "c < 3"
    then consider "c = 0" | "c = 1" | "c = 2" by arith
    then show "is_finite (?iv ! (4 * 0 + c) - ?l)"
      using f0 f1 f2 by cases simp_all
  qed
  obtain out where o: "process average_norm ?d (None :: unit option) ?iv ?ov ?roi ?roi = Inr out"
    "\<forall>k<npixels ?roi.
       is_finite (average_norm (pixel_at ?iv k) (luma_method ?d) (None :: unit option)) \<and>
       is_float32 (average_norm (pixel_at ?iv k) (luma_method ?d) (None :: unit option)) \<and>
       (\<forall>c<3. is_finite (?iv ! (4 * k + c) -
                  average_norm (pixel_at ?iv k) (luma_method ?d) (None :: unit option))) \<longrightarrow>
       (\<forall>c<3. feq (out ! (4 * k + c))
                  (average_norm (pixel_at ?iv k) (luma_method ?d) (None :: unit option)))"
    "\<forall>k<npixels ?roi. out ! (4 * k + 3) = ?iv ! (4 * k + 3)"
    using process_full_desaturation [OF h1 h2 h3, of average_norm "None :: unit option" ?roi]
    by blast
  have k0: "(0::nat) < npixels ?roi" by (simp add: n)
  have L: "average_norm (pixel_at ?iv 0) DT_RGB_NORM_AVERAGE (None :: unit option) = ?l"
    by (simp add: px l)
  have prem: "is_finite (average_norm (pixel_at ?iv 0) (luma_method ?d) (None :: unit option)) \<and>
       is_float32 (average_norm (pixel_at ?iv 0) (luma_method ?d) (None :: unit option)) \<and>
       (\<forall>c<3. is_finite (?iv ! (4 * 0 + c) -
                  average_norm (pixel_at ?iv 0) (luma_method ?d) (None :: unit option)))"
    using fl fin by (simp add: L)
  have r: "feq (out ! (4 * 0 + c)) ?l" if "c < 3" for c
    using o(2) [rule_format, OF k0 prem that] by (simp add: L)
  have "feq (out ! 0) ?l" "feq (out ! 1) ?l" "feq (out ! 2) ?l"
    using r [of 0] r [of 1] r [of 2] by (simp_all add: numeral_2_eq_2)
  moreover have "out ! 3 = Finite False 1" using o(3) [rule_format, OF k0] by simp
  ultimately show ?thesis using h1 h2 h3 l fl f0 f1 f2 o(1) by simp
qed

text \<open>
  C6 as stated fails in \<^verbatim>\<open>float\<close>: for the pixel (FLT_MAX, FLT_MAX, 0, 1) in Average mode
  the sum overflows, the luma is \<open>+\<infinity>\<close>, and the colour channels of the output are NaN.
\<close>

theorem process_full_desaturation_counterexample:
  "process average_norm \<lparr>saturation_factor = 0, luma_method = DT_RGB_NORM_AVERAGE\<rparr>
     (None :: unit option)
     [Finite False (2 ^ 128 - 2 ^ 104), Finite False (2 ^ 128 - 2 ^ 104),
      Finite False 0, Finite False 1]
     [NaN, NaN, NaN, NaN]
     \<lparr>width = 1, height = 1\<rparr> \<lparr>width = 1, height = 1\<rparr> =
   Inr [NaN, NaN, NaN, Finite False 1] \<and>
   average_norm [Finite False (2 ^ 128 - 2 ^ 104), Finite False (2 ^ 128 - 2 ^ 104),
                 Finite False 0, Finite False 1]
     DT_RGB_NORM_AVERAGE (None :: unit option) = Infinity False \<and>
   is_float32 (Finite False (2 ^ 128 - 2 ^ 104)) \<and>
   \<not> feq NaN (Infinity False)"
  by code_simp


text \<open>
  The same at the failing input itself: the black pixel (0, 0, 0, 1), the default factor
  0.96f and no work profile.
\<close>

lemma power_norm_black_pixel:
  "process power_norm_mode
     \<lparr>saturation_factor = Finite False (16106127 / 16777216), luma_method = DT_RGB_NORM_POWER\<rparr>
     (None :: unit option)
     [Finite False 0, Finite False 0, Finite False 0, Finite False 1]
     [Finite False 0, Finite False 0, Finite False 0, Finite False 0]
     \<lparr>width = 1, height = 1\<rparr> \<lparr>width = 1, height = 1\<rparr> =
   Inr [NaN, NaN, NaN, Finite False 1] \<and>
   round32 False (96 / 100) = Finite False (16106127 / 16777216)"
  by code_simp

text \<open>
  C8. The pixels that \<open>process\<close> writes are a function of the input buffer, the
  parameters, the work profile and the input region only: two calls that agree on these
  write the same values, whatever the output buffer held before and whatever the output
  region says.
\<close>

theorem process_deterministic:
  fixes N :: "('a::{plus,minus,times}, 'm, 'p) rgb_norm"
  assumes "4 * npixels roi_in \<le> length ivoid"
    and "4 * npixels roi_in \<le> length ovoid" and "4 * npixels roi_in \<le> length ovoid'"
  shows "\<exists>out out'. process N d work_profile ivoid ovoid roi_in roi_out = Inr out \<and>
           process N d work_profile ivoid ovoid' roi_in roi_out' = Inr out' \<and>
           take (4 * npixels roi_in) out = take (4 * npixels roi_in) out'"
proof -
  let ?n = "npixels roi_in"
  obtain out where o: "process N d work_profile ivoid ovoid roi_in roi_out = Inr out"
      "length out = length ovoid"
      "\<forall>i<length ovoid. out ! i =
              (if i div 4 < ?n then out_value N d work_profile ivoid i else ovoid ! i)"
    using process_nth [OF assms(1,2), of N d work_profile roi_out] by blast
  obtain out' where o': "process N d work_profile ivoid ovoid' roi_in roi_out' = Inr out'"
      "length out' = length ovoid'"
      "\<forall>i<length ovoid'. out' ! i =
              (if i div 4 < ?n then out_value N d work_profile ivoid i else ovoid' ! i)"
    using process_nth [OF assms(1,3), of N d work_profile roi_out'] by blast
  have "take (4 * ?n) out = take (4 * ?n) out'"
  proof (rule nth_equalityI)
    show "length (take (4 * ?n) out) = length (take (4 * ?n) out')"
      using o(2) o'(2) assms by simp
  next
    fix i assume "i < length (take (4 * ?n) out)"
    then have i: "i < 4 * ?n" by simp
    then have "i div 4 < ?n" "i < length ovoid" "i < length ovoid'" using assms by auto
    then show "take (4 * ?n) out ! i = take (4 * ?n) out' ! i"
      using o(3) o'(3) i by simp
  qed
  then show ?thesis using o(1) o'(1) by blast
qed


theorem process_deterministic_witness:
  "4 * npixels \<lparr>width = 1, height = 1\<rparr> \<le>
     length [Finite False 1, Finite False 0, Finite False 0, Finite False 1] \<and>
   4 * npixels \<lparr>width = 1, height = 1\<rparr> \<le> length [NaN, NaN, NaN, NaN] \<and>
   4 * npixels \<lparr>width = 1, height = 1\<rparr> \<le>
     length [Finite False 7, Finite False 7, Finite False 7, Finite False 7, Infinity True] \<and>
   (\<exists>out out'.
      process average_norm
        \<lparr>saturation_factor = Finite False 2, luma_method = DT_RGB_NORM_AVERAGE\<rparr>
        (None :: unit option)
        [Finite False 1, Finite False 0, Finite False 0, Finite False 1]
        [NaN, NaN, NaN, NaN]
        \<lparr>width = 1, height = 1\<rparr> \<lparr>width = 1, height = 1\<rparr> = Inr out \<and>
      process average_norm
        \<lparr>saturation_factor = Finite False 2, luma_method = DT_RGB_NORM_AVERAGE\<rparr>
        (None :: unit option)
        [Finite False 1, Finite False 0, Finite False 0, Finite False 1]
        [Finite False 7, Finite False 7, Finite False 7, Finite False 7, Infinity True]
        \<lparr>width = 1, height = 1\<rparr> \<lparr>width = 3, height = 9\<rparr> = Inr out' \<and>
      take 4 out = take 4 out')"
proof -
  let ?iv = "[Finite False 1, Finite False 0, Finite False 0, Finite False 1]"
  let ?ov = "[NaN, NaN, NaN, NaN]"
  let ?ov' = "[Finite False 7, Finite False 7, Finite False 7, Finite False 7, Infinity True]"
  let ?roi = "\<lparr>width = 1, height = 1\<rparr>"
  have n: "npixels ?roi = 1" by (simp add: npixels_def)
  have h1: "4 * npixels ?roi \<le> length ?iv" and h2: "4 * npixels ?roi \<le> length ?ov"
    and h3: "4 * npixels ?roi \<le> length ?ov'"
    by (simp_all add: n)
  show ?thesis
    using h1 h2 h3
      process_deterministic [OF h1 h2 h3, of average_norm
        "\<lparr>saturation_factor = Finite False 2, luma_method = DT_RGB_NORM_AVERAGE\<rparr>"
        "None :: unit option" ?roi "\<lparr>width = 3, height = 9\<rparr>"]
    by (simp add: n)
qed

text \<open>
  C9. For a region of width 0 or height 0 the loop does not run: \<open>process\<close> returns
  without a fault and leaves the output buffer as it was, an empty one empty.
\<close>

theorem process_zero_sized:
  fixes N :: "('a::{plus,minus,times}, 'm, 'p) rgb_norm"
  assumes "width roi_in = 0 \<or> height roi_in = 0"
  shows "process N d work_profile ivoid ovoid roi_in roi_out = Inr ovoid"
proof -
  have "npixels roi_in = 0" using assms by (simp add: npixels_eq_0_iff)
  then show ?thesis by (simp add: process_def process_loop.simps [of _ _ _ _ 0 0])
qed

theorem process_zero_sized_witness:
  "(width \<lparr>width = 0, height = 5\<rparr> = 0 \<or> height \<lparr>width = 0, height = 5\<rparr> = 0) \<and>
   process average_norm \<lparr>saturation_factor = Finite False 2, luma_method = DT_RGB_NORM_AVERAGE\<rparr>
     (None :: unit option) [] [] \<lparr>width = 0, height = 5\<rparr> \<lparr>width = 0, height = 5\<rparr> = Inr []"
proof -
  have h: "width \<lparr>width = 0, height = 5\<rparr> = 0 \<or> height \<lparr>width = 0, height = 5\<rparr> = 0"
    by simp
  show ?thesis using h process_zero_sized [OF h] by blast
qed

text \<open>
  C10. \<open>process\<close> does not clamp: with factor 2.0, inside the documented range from 0.0
  to 2.0, on the pixel (1, 0, 0, 1) in Average mode the green and blue channels of the
  output are negative and the red one exceeds 1.
\<close>

theorem process_unclamped:
  "\<not> flt (Finite False 2) 0 \<and> \<not> flt (Finite False 2) (Finite False 2) \<and>
   process average_norm \<lparr>saturation_factor = Finite False 2, luma_method = DT_RGB_NORM_AVERAGE\<rparr>
     (None :: unit option)
     [Finite False 1, Finite False 0, Finite False 0, Finite False 1]
     [NaN, NaN, NaN, NaN]
     \<lparr>width = 1, height = 1\<rparr> \<lparr>width = 1, height = 1\<rparr> =
   Inr [Finite False (13981013 / 8388608), Finite True (11184811 / 33554432),
        Finite True (11184811 / 33554432), Finite False 1] \<and>
   flt (Finite True (11184811 / 33554432)) 0 \<and>
   flt 1 (Finite False (13981013 / 8388608))"
proof -
  have range: "\<not> flt (Finite False 2) 0" "\<not> flt (Finite False 2) (Finite False 2)"
    by (simp_all add: zero_float_def sval_def)
  have run: "process average_norm
     \<lparr>saturation_factor = Finite False 2, luma_method = DT_RGB_NORM_AVERAGE\<rparr>
     (None :: unit option)
     [Finite False 1, Finite False 0, Finite False 0, Finite False 1]
     [NaN, NaN, NaN, NaN]
     \<lparr>width = 1, height = 1\<rparr> \<lparr>width = 1, height = 1\<rparr> =
   Inr [Finite False (13981013 / 8388608), Finite True (11184811 / 33554432),
        Finite True (11184811 / 33554432), Finite False 1]"
    by code_simp
  have negative: "flt (Finite True (11184811 / 33554432)) 0"
    by (simp add: zero_float_def sval_def)
  have above: "flt 1 (Finite False (13981013 / 8388608))"
    by (simp add: one_float_def sval_def)
  show ?thesis using range run negative above by blast
qed

end
